theory Spec2Isabelle
  imports Complex_Main "HOL-Library.Multiset"
begin

section \<open>Data model\<close>

text \<open>
  The development embeds the two collaborating classes of
  \<^verbatim>\<open>integration-tests/ejemplos-claros/services\<close>: \<^verbatim>\<open>ProductService\<close> (product lookup,
  tax enrichment, simulated stock) and \<^verbatim>\<open>CartService\<close> (the in-memory cart).

  Conventions of the embedding:
  \<^item> A JavaScript number is a \<open>rat\<close>. Every finite binary64 value is a rational; the
    operations \<open>+\<close>, \<open>-\<close>, \<open>*\<close>, \<open>/\<close> are computed exactly, so the rounding error of
    binary64 arithmetic, \<open>NaN\<close> and the infinities are outside the model. Comparisons
    (\<open>>\<close>, \<open>===\<close>) on numbers are the exact ones.
  \<^item> An object literal is a \<^theory_text>\<open>record\<close>; a field the source may leave
    \<open>undefined\<close> (\<open>description\<close>, \<open>image\<close>) is an \<open>option\<close>.
  \<^item> A thrown or rejected error is a value \<open>Inl e\<close> of a sum type; \<open>e\<close> carries the
    constructor name and the \<open>message\<close> property.
  \<^item> The two sources of nondeterminism, \<open>axios.get\<close> and \<open>Math.random\<close>, are
    oracles of an environment \<open>env\<close>: the answer to the \<open>n\<close>-th call is a function of
    \<open>n\<close> (and of the request). The \<open>world\<close> counts the calls made so far; every
    operation takes the world and returns the new one.
  \<^item> An answer of the upstream is taken to be JSON of the documented shape: an object
    with \<open>id\<close>, \<open>title\<close>, \<open>price\<close>, \<open>category\<close> (and possibly \<open>description\<close>,
    \<open>image\<close>) for a product, an array of such objects for a category; \<open>price\<close> is a
    number. A rejection carries an error object with a \<open>message\<close>.
  \<^item> Calls on one aggregator are made one after the other, each awaited before the next;
    interleaved calls are outside the model.
  \<^item> \<open>console.log\<close> and \<open>console.error\<close> are not modelled.
\<close>

type_synonym number = rat

record js_error =
  name :: string
  message :: string

text \<open>\<^verbatim>\<open>new Error(msg)\<close>\<close>

definition Error :: "string \<Rightarrow> js_error" where
  "Error msg = \<lparr>name = ''Error'', message = msg\<rparr>"

text \<open>\<^verbatim>\<open>response.data\<close> of the product endpoints: the JSON fields the code reads.\<close>

record data =
  d_id :: int
  d_title :: string
  d_price :: number
  d_description :: "string option"
  d_category :: string
  d_image :: "string option"

text \<open>The object built by \<^verbatim>\<open>getProduct\<close>.\<close>

record product =
  p_id :: int
  p_title :: string
  p_price :: number
  p_description :: "string option"
  p_category :: string
  p_image :: "string option"
  p_isExpensive :: bool
  p_priceWithTax :: number


text \<open>
  The environment. \<open>axios_get_product env n apiUrl productId\<close> is the outcome of
  \<^verbatim>\<open>axios.get(`${apiUrl}/products/${productId}`)\<close> when it is the \<open>n\<close>-th request made,
  \<open>axios_get_category env n apiUrl category\<close> that of
  \<^verbatim>\<open>axios.get(`${apiUrl}/products/category/${category}`)\<close>: \<open>Inl\<close> a rejection,
  \<open>Inr\<close> the \<open>data\<close> of the response. \<open>math_random env n\<close> is the \<open>n\<close>-th value
  returned by \<^verbatim>\<open>Math.random()\<close>.
\<close>

record env =
  axios_get_product :: "nat \<Rightarrow> string \<Rightarrow> int \<Rightarrow> js_error + data"
  axios_get_category :: "nat \<Rightarrow> string \<Rightarrow> string \<Rightarrow> js_error + data list"
  math_random :: "nat \<Rightarrow> number"

record world =
  net :: nat
  rnd :: nat

section \<open>ProductService\<close>

record product_service =
  apiUrl :: string

text \<open>\<^verbatim>\<open>constructor(apiUrl = 'https://fakestoreapi.com')\<close>\<close>

definition ProductService_new :: "string option \<Rightarrow> product_service" where
  "ProductService_new url =
     \<lparr>apiUrl = (case url of None \<Rightarrow> ''https://fakestoreapi.com'' | Some u \<Rightarrow> u)\<rparr>"

definition calculateTax :: "number \<Rightarrow> number" where
  "calculateTax price =
     (let taxRate = (if price > 100 then 0.15 else 0.10)
      in price + (price * taxRate))"

definition getProduct ::
  "env \<Rightarrow> product_service \<Rightarrow> int \<Rightarrow> world \<Rightarrow> (js_error + product) \<times> world" where
  "getProduct env this productId w =
     (case axios_get_product env (net w) (apiUrl this) productId of
        Inr d \<Rightarrow>
          (Inr \<lparr>p_id = d_id d,
                p_title = d_title d,
                p_price = d_price d,
                p_description = d_description d,
                p_category = d_category d,
                p_image = d_image d,
                p_isExpensive = (d_price d > 100),
                p_priceWithTax = calculateTax (d_price d)\<rparr>,
           w\<lparr>net := Suc (net w)\<rparr>)
      | Inl error \<Rightarrow>
          (Inl (Error (''No se pudo obtener el producto: '' @ message error)),
           w\<lparr>net := Suc (net w)\<rparr>))"



text \<open>
  \<^verbatim>\<open>return !product.isExpensive || Math.random() > 0.3\<close>: the draw is made only for an
  expensive product (\<open>||\<close> short-circuits). The \<open>catch\<close> turns every failure of
  \<open>getProduct\<close> into \<open>false\<close>.
\<close>

definition isProductAvailable ::
  "env \<Rightarrow> product_service \<Rightarrow> int \<Rightarrow> world \<Rightarrow> bool \<times> world" where
  "isProductAvailable env this productId w =
     (case getProduct env this productId w of
        (Inr product, w1) \<Rightarrow>
          (if \<not> p_isExpensive product then (True, w1)
           else (math_random env (rnd w1) > 0.3, w1\<lparr>rnd := Suc (rnd w1)\<rparr>))
      | (Inl error, w1) \<Rightarrow> (False, w1))"

section \<open>CartService\<close>

text \<open>An element of \<^verbatim>\<open>this.items\<close>.\<close>

record cart_item =
  i_productId :: int
  i_title :: string
  i_price :: number
  i_priceWithTax :: number
  i_quantity :: number
  i_subtotal :: number
  i_isExpensive :: bool

record cart_service =
  productService :: product_service
  items :: "cart_item list"

definition CartService_new :: cart_service where
  "CartService_new = \<lparr>productService = ProductService_new None, items = []\<rparr>"

text \<open>
  \<^verbatim>\<open>this.items.find(...)\<close> returns the first matching object itself, and the assignments
  to \<^verbatim>\<open>existingItem.quantity\<close> and \<^verbatim>\<open>existingItem.subtotal\<close> change it in place inside
  the array: \<open>update_first\<close> writes the changed object at the position of the first match.
\<close>

fun update_first :: "('a \<Rightarrow> bool) \<Rightarrow> ('a \<Rightarrow> 'a) \<Rightarrow> 'a list \<Rightarrow> 'a list" where
  "update_first P f [] = []"
| "update_first P f (x # xs) = (if P x then f x # xs else x # update_first P f xs)"

text \<open>
  \<^verbatim>\<open>addProduct(productId, quantity = 1)\<close>; a caller that omits \<open>quantity\<close> passes \<open>1\<close>.
  The \<open>try\<close> block covers the whole body, so the error thrown for an unavailable
  product is caught by the same \<open>catch\<close> as a failure of \<open>getProduct\<close> and rethrown
  with the prefix.
\<close>

definition addProduct ::
  "env \<Rightarrow> int \<Rightarrow> number \<Rightarrow> cart_service \<Rightarrow> world
     \<Rightarrow> (js_error + cart_item) \<times> cart_service \<times> world" where
  "addProduct env productId quantity this w =
     (case getProduct env (productService this) productId w of
        (Inl error, w1) \<Rightarrow>
          (Inl (Error (''No se pudo agregar al carrito: '' @ message error)), this, w1)
      | (Inr product, w1) \<Rightarrow>
          (case isProductAvailable env (productService this) productId w1 of
             (isAvailable, w2) \<Rightarrow>
               if \<not> isAvailable then
                 (let error = Error (''Producto '' @ p_title product @ '' no disponible en stock'')
                  in (Inl (Error (''No se pudo agregar al carrito: '' @ message error)), this, w2))
               else
                 (case List.find (\<lambda>item. i_productId item = productId) (items this) of
                    Some existingItem \<Rightarrow>
                      (let existingItem1 =
                             existingItem\<lparr>i_quantity := i_quantity existingItem + quantity\<rparr>;
                           existingItem2 =
                             existingItem1\<lparr>i_subtotal :=
                               i_quantity existingItem1 * p_priceWithTax product\<rparr>
                       in (Inr existingItem2,
                           this\<lparr>items := update_first (\<lambda>item. i_productId item = productId)
                                            (\<lambda>_. existingItem2) (items this)\<rparr>,
                           w2))
                  | None \<Rightarrow>
                      (let newItem =
                             \<lparr>i_productId = productId,
                              i_title = p_title product,
                              i_price = p_price product,
                              i_priceWithTax = p_priceWithTax product,
                              i_quantity = quantity,
                              i_subtotal = quantity * p_priceWithTax product,
                              i_isExpensive = p_isExpensive product\<rparr>
                       in (Inr newItem, this\<lparr>items := items this @ [newItem]\<rparr>, w2)))))"

text \<open>\<^verbatim>\<open>Math.round\<close>: the nearest integer, a tie going up.\<close>

definition Math_round :: "number \<Rightarrow> number" where
  "Math_round x = of_int \<lfloor>x + 1 / 2\<rfloor>"

record summary =
  s_items :: "cart_item list"
  s_totalItems :: number
  s_subtotal :: number
  s_discount :: number
  s_total :: number
  s_hasDiscount :: bool

definition getCartSummary :: "cart_service \<Rightarrow> world \<Rightarrow> summary \<times> cart_service \<times> world" where
  "getCartSummary this w =
     (let totalItems = foldl (\<lambda>sum item. sum + i_quantity item) 0 (items this);
          subtotal = foldl (\<lambda>sum item. sum + i_subtotal item) 0 (items this);
          discount = (if subtotal > 500 then subtotal * 0.05 else 0);
          total = subtotal - discount
      in (\<lparr>s_items = items this,
           s_totalItems = totalItems,
           s_subtotal = Math_round (subtotal * 100) / 100,
           s_discount = Math_round (discount * 100) / 100,
           s_total = Math_round (total * 100) / 100,
           s_hasDiscount = (discount > 0)\<rparr>,
          this, w))"

record validation_result =
  r_productId :: int
  r_title :: string
  r_quantity :: number
  r_isAvailable :: bool

record validation =
  v_isValid :: bool
  v_availableItems :: "validation_result list"
  v_unavailableItems :: "validation_result list"
  v_totalItems :: nat

text \<open>The \<open>for ... of\<close> loop of \<^verbatim>\<open>validateCart\<close>: the lines still to visit, the
  \<open>validationResults\<close> pushed so far, the world.\<close>

fun validate_loop ::
  "env \<Rightarrow> product_service \<Rightarrow> cart_item list \<Rightarrow> validation_result list \<Rightarrow> world
     \<Rightarrow> validation_result list \<times> world" where
  "validate_loop env ps [] validationResults w = (validationResults, w)"
| "validate_loop env ps (item # rest) validationResults w =
     (case isProductAvailable env ps (i_productId item) w of
        (isAvailable, w1) \<Rightarrow>
          validate_loop env ps rest
            (validationResults @
               [\<lparr>r_productId = i_productId item,
                 r_title = i_title item,
                 r_quantity = i_quantity item,
                 r_isAvailable = isAvailable\<rparr>])
            w1)"

definition validateCart ::
  "env \<Rightarrow> cart_service \<Rightarrow> world \<Rightarrow> validation \<times> cart_service \<times> world" where
  "validateCart env this w =
     (case validate_loop env (productService this) (items this) [] w of
        (validationResults, w1) \<Rightarrow>
          (let unavailableItems = filter (\<lambda>result. \<not> r_isAvailable result) validationResults;
               isValid = (length unavailableItems = 0)
           in (\<lparr>v_isValid = isValid,
                v_availableItems = filter (\<lambda>r. r_isAvailable r) validationResults,
                v_unavailableItems = unavailableItems,
                v_totalItems = length validationResults\<rparr>,
               this, w1)))"

definition clearCart :: "cart_service \<Rightarrow> world \<Rightarrow> unit \<times> cart_service \<times> world" where
  "clearCart this w = ((), this\<lparr>items := []\<rparr>, w)"

definition getItems :: "cart_service \<Rightarrow> world \<Rightarrow> cart_item list \<times> cart_service \<times> world" where
  "getItems this w = (items this, this, w)"

text \<open>A caller's use of one aggregator: a sequence of method calls, results dropped.\<close>

datatype operation =
  AddProduct int number
| GetCartSummary
| ValidateCart
| ClearCart
| GetItems

fun step :: "env \<Rightarrow> cart_service \<times> world \<Rightarrow> operation \<Rightarrow> cart_service \<times> world" where
  "step env (this, w) (AddProduct productId quantity) = snd (addProduct env productId quantity this w)"
| "step env (this, w) GetCartSummary = snd (getCartSummary this w)"
| "step env (this, w) ValidateCart = snd (validateCart env this w)"
| "step env (this, w) ClearCart = snd (clearCart this w)"
| "step env (this, w) GetItems = snd (getItems this w)"

definition run :: "env \<Rightarrow> operation list \<Rightarrow> world \<Rightarrow> cart_service \<times> world" where
  "run env ops w = foldl (step env) (CartService_new, w) ops"

section \<open>Notions used in the statements\<close>


text \<open>The invariant of a cart line.\<close>

definition line_ok :: "cart_item \<Rightarrow> bool" where
  "line_ok item \<longleftrightarrow>
     i_quantity item \<ge> 1 \<and> i_subtotal item = i_quantity item * i_priceWithTax item"

text \<open>The calls of a caller that only ever adds a quantity of at least one.\<close>

fun positive_quantity :: "operation \<Rightarrow> bool" where
  "positive_quantity (AddProduct productId quantity) = (quantity \<ge> 1)"
| "positive_quantity GetCartSummary = True"
| "positive_quantity ValidateCart = True"
| "positive_quantity ClearCart = True"
| "positive_quantity GetItems = True"

text \<open>An upstream whose answers for one product always carry the same price.\<close>

definition stable_prices :: "env \<Rightarrow> bool" where
  "stable_prices env \<longleftrightarrow>
     (\<forall>n m url productId d d'.
        axios_get_product env n url productId = Inr d \<longrightarrow>
        axios_get_product env m url productId = Inr d' \<longrightarrow>
        d_price d = d_price d')"

text \<open>The stored unit price of a line is the taxed price of every answer the upstream
  gives for the line's product.\<close>

definition priced_by :: "env \<Rightarrow> string \<Rightarrow> cart_item \<Rightarrow> bool" where
  "priced_by env url item \<longleftrightarrow>
     (\<forall>n d. axios_get_product env n url (i_productId item) = Inr d \<longrightarrow>
            i_priceWithTax item = calculateTax (d_price d))"

text \<open>The invariant of the whole cart: every line is sound and priced by the upstream at
  the endpoint of the aggregator's own lookup service.\<close>

definition cart_inv :: "env \<Rightarrow> cart_service \<Rightarrow> bool" where
  "cart_inv env this \<longleftrightarrow>
     (\<forall>item \<in> set (items this).
        line_ok item \<and> priced_by env (apiUrl (productService this)) item)"

text \<open>The world after the availability checks of the given lines, made one after the
  other.\<close>

definition after_checks :: "env \<Rightarrow> product_service \<Rightarrow> cart_item list \<Rightarrow> world \<Rightarrow> world" where
  "after_checks env ps lines w =
     foldl (\<lambda>w' item. snd (isProductAvailable env ps (i_productId item) w')) w lines"

section \<open>Concrete environments\<close>

text \<open>The products of the repository's tests, and small upstreams serving them.\<close>

definition iphone :: data where
  "iphone = \<lparr>d_id = 1, d_title = ''iPhone 15 Pro'', d_price = 999,
              d_description = Some ''Smartphone'', d_category = ''electronics'',
              d_image = Some ''https://ejemplo.com/iphone.jpg''\<rparr>"

definition camiseta :: data where
  "camiseta = \<lparr>d_id = 2, d_title = ''Camiseta basica'', d_price = 25,
                d_description = Some ''Camiseta de algodon'', d_category = ''clothing'',
                d_image = Some ''https://ejemplo.com/camiseta.jpg''\<rparr>"

text \<open>A fixed catalogue: products 1 and 2, every other request rejected; every draw of
  \<^verbatim>\<open>Math.random\<close> is \<open>draw\<close>.\<close>

definition shop :: "number \<Rightarrow> env" where
  "shop draw =
     \<lparr>axios_get_product =
        (\<lambda>n url productId.
           if productId = 1 then Inr iphone
           else if productId = 2 then Inr camiseta
           else Inl (Error ''Network timeout'')),
      axios_get_category =
        (\<lambda>n url category.
           if category = ''clothing'' then Inr [camiseta]
           else if category = ''electronics'' then Inr [iphone]
           else Inl (Error ''Network timeout'')),
      math_random = (\<lambda>n. draw)\<rparr>"

text \<open>An upstream selling one product whose price is \<open>before\<close> for the first
  \<open>k\<close> requests and \<open>after\<close> from then on.\<close>

definition repriced :: "nat \<Rightarrow> number \<Rightarrow> number \<Rightarrow> env" where
  "repriced k before after =
     \<lparr>axios_get_product =
        (\<lambda>n url productId.
           Inr \<lparr>d_id = productId, d_title = ''Producto Demo'',
                d_price = (if n < k then before else after),
                d_description = None, d_category = ''demo'', d_image = None\<rparr>),
      axios_get_category = (\<lambda>n url category. Inr []),
      math_random = (\<lambda>n. 0.5)\<rparr>"

definition w0 :: world where
  "w0 = \<lparr>net = 0, rnd = 0\<rparr>"

section \<open>Tax tiers\<close>



section \<open>Catalogue lookup\<close>



section \<open>Facts about the lookup\<close>

lemmas service_defs =
  addProduct_def getProduct_def isProductAvailable_def calculateTax_def Error_def
  CartService_new_def ProductService_new_def run_def getCartSummary_def validateCart_def
  clearCart_def getItems_def Math_round_def Let_def

lemma getProduct_success:
  "axios_get_product env (net w) (apiUrl this) productId = Inr d \<Longrightarrow>
   getProduct env this productId w =
     (Inr \<lparr>p_id = d_id d, p_title = d_title d, p_price = d_price d,
           p_description = d_description d, p_category = d_category d, p_image = d_image d,
           p_isExpensive = (d_price d > 100), p_priceWithTax = calculateTax (d_price d)\<rparr>,
      w\<lparr>net := Suc (net w)\<rparr>)"
  by (simp add: getProduct_def)

lemma getProduct_failure:
  "axios_get_product env (net w) (apiUrl this) productId = Inl cause \<Longrightarrow>
   getProduct env this productId w =
     (Inl (Error (''No se pudo obtener el producto: '' @ message cause)),
      w\<lparr>net := Suc (net w)\<rparr>)"
  by (simp add: getProduct_def)


section \<open>Availability\<close>

text \<open>
  Claim C6. If the fetch made inside \<open>isProductAvailable\<close> is rejected, whatever the
  product id and the cause, the call returns \<open>false\<close>; it does not fail (its result is
  a boolean, the \<open>catch\<close> covering the whole body), and it makes no random draw.
\<close>

theorem C6_fail_closed:
  "axios_get_product env (net w) (apiUrl this) productId = Inl cause \<Longrightarrow>
   isProductAvailable env this productId w = (False, w\<lparr>net := Suc (net w)\<rparr>)"
  by (simp add: isProductAvailable_def getProduct_failure)

theorem C6_fail_closed_witness:
  "axios_get_product (shop 0.5) (net w0) (apiUrl (ProductService_new None)) 999
     = Inl (Error ''Network timeout'')
   \<and> isProductAvailable (shop 0.5) (ProductService_new None) 999 w0
       = (False, \<lparr>net = 1, rnd = 0\<rparr>)"
proof -
  have a: "axios_get_product (shop 0.5) (net w0) (apiUrl (ProductService_new None)) 999
     = Inl (Error ''Network timeout'')"
    by (simp add: shop_def)
  from C6_fail_closed [OF a] a show ?thesis by (simp add: w0_def)
qed

text \<open>
  Claim C7. Let the fetch made inside \<open>isProductAvailable\<close> answer with a product of
  price \<open>p\<close>. If \<open>p \<le> 100\<close> the call returns \<open>true\<close> whatever \<open>Math.random\<close> would
  return (the oracle of draws can be replaced by any other without changing the result,
  and no draw is consumed). If \<open>p > 100\<close> the call consumes exactly the next draw and
  returns \<open>true\<close> exactly when that draw is greater than \<open>0.3\<close>.
\<close>

theorem C7_availability:
  assumes "axios_get_product env (net w) (apiUrl this) productId = Inr d"
  shows "(d_price d \<le> 100 \<longrightarrow>
            (\<forall>random. isProductAvailable (env\<lparr>math_random := random\<rparr>) this productId w
                        = (True, w\<lparr>net := Suc (net w)\<rparr>)))
       \<and> (d_price d > 100 \<longrightarrow>
            isProductAvailable env this productId w
              = (math_random env (rnd w) > 0.3, w\<lparr>net := Suc (net w), rnd := Suc (rnd w)\<rparr>))"
  using assms by (simp add: isProductAvailable_def getProduct_def)

text \<open>The cheap product is available with the draws 0.1 and 0.9; the expensive one is
  not available with the draw 0.1 and available with 0.9.\<close>

theorem C7_availability_witness:
  "isProductAvailable (shop 0.1) (ProductService_new None) 2 w0 = (True, \<lparr>net = 1, rnd = 0\<rparr>)
   \<and> isProductAvailable (shop 0.9) (ProductService_new None) 2 w0 = (True, \<lparr>net = 1, rnd = 0\<rparr>)
   \<and> isProductAvailable (shop 0.1) (ProductService_new None) 1 w0 = (False, \<lparr>net = 1, rnd = 1\<rparr>)
   \<and> isProductAvailable (shop 0.9) (ProductService_new None) 1 w0 = (True, \<lparr>net = 1, rnd = 1\<rparr>)"
proof -
  have a: "axios_get_product (shop 0.1) (net w0) (apiUrl (ProductService_new None)) 2 = Inr camiseta"
    by (simp add: shop_def)
  have b: "axios_get_product (shop 0.1) (net w0) (apiUrl (ProductService_new None)) 1 = Inr iphone"
    by (simp add: shop_def)
  have c: "axios_get_product (shop 0.9) (net w0) (apiUrl (ProductService_new None)) 1 = Inr iphone"
    by (simp add: shop_def)
  have s: "(shop 0.1)\<lparr>math_random := \<lambda>n. 0.1\<rparr> = shop 0.1"
    "(shop 0.1)\<lparr>math_random := \<lambda>n. 0.9\<rparr> = shop 0.9"
    by (simp_all add: shop_def)
  have "d_price camiseta \<le> 100" by (simp add: camiseta_def)
  with C7_availability [OF a] have
    "\<forall>random. isProductAvailable ((shop 0.1)\<lparr>math_random := random\<rparr>)
                 (ProductService_new None) 2 w0
               = (True, w0\<lparr>net := Suc (net w0)\<rparr>)"
    by blast
  from this [rule_format, of "\<lambda>n. 0.1"] this [rule_format, of "\<lambda>n. 0.9"]
  have 1: "isProductAvailable (shop 0.1) (ProductService_new None) 2 w0
             = (True, \<lparr>net = 1, rnd = 0\<rparr>)"
    and 2: "isProductAvailable (shop 0.9) (ProductService_new None) 2 w0
             = (True, \<lparr>net = 1, rnd = 0\<rparr>)"
    by (simp_all add: s w0_def)
  have e: "d_price iphone > 100" by (simp add: iphone_def)
  from C7_availability [OF b] e
  have 3: "isProductAvailable (shop 0.1) (ProductService_new None) 1 w0
             = (False, \<lparr>net = 1, rnd = 1\<rparr>)"
    by (simp add: w0_def shop_def)
  from C7_availability [OF c] e
  have 4: "isProductAvailable (shop 0.9) (ProductService_new None) 1 w0
             = (True, \<lparr>net = 1, rnd = 1\<rparr>)"
    by (simp add: w0_def shop_def)
  from 1 2 3 4 show ?thesis by blast
qed

section \<open>Failures of addProduct\<close>



text \<open>
  Claim C10. Whenever \<open>addProduct\<close> fails, the error is a plain \<open>Error\<close> whose message
  is the message of the underlying error behind the prefix \<open>No se pudo agregar al
  carrito: \<close>. There are two cases, told apart by the message only: the lookup was
  rejected with some cause, and the message is the prefix, then \<open>No se pudo obtener el
  producto: \<close>, then the cause's message; or the lookup succeeded, the availability check
  returned \<open>false\<close>, and the message is the prefix followed by \<open>Producto <title> no
  disponible en stock\<close>.
\<close>

theorem C10_failures:
  assumes "fst (addProduct env productId quantity this w) = Inl e"
  shows "name e = ''Error''
       \<and> ((\<exists>cause. axios_get_product env (net w) (apiUrl (productService this)) productId
                       = Inl cause
                  \<and> message e = ''No se pudo agregar al carrito: ''
                                 @ ''No se pudo obtener el producto: '' @ message cause)
          \<or> (\<exists>d. axios_get_product env (net w) (apiUrl (productService this)) productId = Inr d
                  \<and> \<not> fst (isProductAvailable env (productService this) productId
                             (w\<lparr>net := Suc (net w)\<rparr>))
                  \<and> message e = ''No se pudo agregar al carrito: ''
                                 @ ''Producto '' @ d_title d @ '' no disponible en stock''))"
proof (cases "axios_get_product env (net w) (apiUrl (productService this)) productId")
  case (Inl cause)
  with assms show ?thesis
    by (auto simp: addProduct_def getProduct_failure Error_def)
next
  case (Inr d)
  with assms show ?thesis
    by (auto simp: addProduct_def getProduct_success Error_def Let_def
        split: prod.splits if_splits option.splits)
qed

text \<open>A rejected lookup gives the doubly wrapped message; an unavailable product gives
  an error of the same kind with the other message.\<close>

theorem C10_failures_witness:
  "fst (addProduct (shop 0.5) 999 1 CartService_new w0) =
     Inl (Error ''No se pudo agregar al carrito: No se pudo obtener el producto: Network timeout'')
   \<and> name (Error ''No se pudo agregar al carrito: No se pudo obtener el producto: Network timeout'')
       = ''Error''
   \<and> fst (addProduct (shop 0.1) 1 1 CartService_new w0) =
     Inl (Error ''No se pudo agregar al carrito: Producto iPhone 15 Pro no disponible en stock'')"
proof -
  have a: "fst (addProduct (shop 0.5) 999 1 CartService_new w0) =
     Inl (Error ''No se pudo agregar al carrito: No se pudo obtener el producto: Network timeout'')"
    by (simp add: service_defs shop_def w0_def)
  have b: "fst (addProduct (shop 0.1) 1 1 CartService_new w0) =
     Inl (Error ''No se pudo agregar al carrito: Producto iPhone 15 Pro no disponible en stock'')"
    by (simp add: service_defs shop_def w0_def iphone_def)
  from C10_failures [OF a] a b show ?thesis by blast
qed

section \<open>The summary\<close>






lemma run_phone_shirts:
  "run (shop 0.5) [AddProduct 1 1, AddProduct 2 2] w0 =
     (\<lparr>productService = \<lparr>apiUrl = ''https://fakestoreapi.com''\<rparr>,
       items = [\<lparr>i_productId = 1, i_title = ''iPhone 15 Pro'', i_price = 999,
                 i_priceWithTax = 1148.85, i_quantity = 1, i_subtotal = 1148.85,
                 i_isExpensive = True\<rparr>,
                \<lparr>i_productId = 2, i_title = ''Camiseta basica'', i_price = 25,
                 i_priceWithTax = 27.5, i_quantity = 2, i_subtotal = 55,
                 i_isExpensive = False\<rparr>]\<rparr>,
      \<lparr>net = 4, rnd = 1\<rparr>)"
  by (simp add: service_defs shop_def iphone_def camiseta_def w0_def)






section \<open>Validation of the cart\<close>

lemma isProductAvailable_net:
  "net (snd (isProductAvailable env ps productId w)) = Suc (net w)"
  by (simp add: isProductAvailable_def getProduct_def split: sum.split)

text \<open>The results pushed by the loop come after those already there.\<close>

lemma validate_loop_acc:
  "validate_loop env ps xs acc w =
     (acc @ fst (validate_loop env ps xs [] w), snd (validate_loop env ps xs [] w))"
proof (induction xs arbitrary: acc w)
  case Nil
  show ?case by simp
next
  case (Cons item rest)
  obtain b w1 where s: "isProductAvailable env ps (i_productId item) w = (b, w1)"
    by (cases "isProductAvailable env ps (i_productId item) w")
  let ?r = "\<lparr>r_productId = i_productId item, r_title = i_title item,
              r_quantity = i_quantity item, r_isAvailable = b\<rparr>"
  have "validate_loop env ps (item # rest) acc w = validate_loop env ps rest (acc @ [?r]) w1"
    by (simp add: s)
  also have "\<dots> = ((acc @ [?r]) @ fst (validate_loop env ps rest [] w1),
                    snd (validate_loop env ps rest [] w1))"
    by (rule Cons.IH)
  also have "\<dots> = (acc @ fst (validate_loop env ps rest [?r] w1),
                    snd (validate_loop env ps rest [?r] w1))"
    using Cons.IH [of "[?r]" w1] by simp
  also have "\<dots> = (acc @ fst (validate_loop env ps (item # rest) [] w),
                    snd (validate_loop env ps (item # rest) [] w))"
    by (simp add: s)
  finally show ?case .
qed

lemma validate_loop_Cons:
  "validate_loop env ps (item # rest) [] w =
     (\<lparr>r_productId = i_productId item, r_title = i_title item, r_quantity = i_quantity item,
        r_isAvailable = fst (isProductAvailable env ps (i_productId item) w)\<rparr>
        # fst (validate_loop env ps rest [] (snd (isProductAvailable env ps (i_productId item) w))),
      snd (validate_loop env ps rest [] (snd (isProductAvailable env ps (i_productId item) w))))"
proof -
  obtain b w1 where s: "isProductAvailable env ps (i_productId item) w = (b, w1)"
    by (cases "isProductAvailable env ps (i_productId item) w")
  show ?thesis
    using validate_loop_acc [of env ps rest "[\<lparr>r_productId = i_productId item,
      r_title = i_title item, r_quantity = i_quantity item, r_isAvailable = b\<rparr>]" w1]
    by (simp add: s)
qed

lemma validate_loop_lines:
  "map r_productId (fst (validate_loop env ps xs [] w)) = map i_productId xs
   \<and> map r_title (fst (validate_loop env ps xs [] w)) = map i_title xs
   \<and> map r_quantity (fst (validate_loop env ps xs [] w)) = map i_quantity xs"
  by (induction xs arbitrary: w) (simp_all add: validate_loop_Cons del: validate_loop.simps(2))

lemma validate_loop_world:
  "snd (validate_loop env ps xs [] w) = after_checks env ps xs w"
  by (induction xs arbitrary: w)
    (simp_all add: validate_loop_Cons after_checks_def del: validate_loop.simps(2))

lemma after_checks_net: "net (after_checks env ps xs w) = net w + length xs"
  unfolding after_checks_def
  by (induction xs arbitrary: w) (simp_all add: isProductAvailable_net)

lemma validate_loop_append:
  "validate_loop env ps (xs @ ys) [] w =
     (fst (validate_loop env ps xs [] w)
        @ fst (validate_loop env ps ys [] (snd (validate_loop env ps xs [] w))),
      snd (validate_loop env ps ys [] (snd (validate_loop env ps xs [] w))))"
  by (induction xs arbitrary: w) (simp_all add: validate_loop_Cons del: validate_loop.simps(2))

text \<open>The verdict stored for the \<open>k\<close>-th line is the answer of the check of that line,
  made after the checks of the lines before it.\<close>

lemma validate_loop_verdict:
  assumes "k < length xs"
  shows "r_isAvailable (fst (validate_loop env ps xs [] w) ! k) =
           fst (isProductAvailable env ps (i_productId (xs ! k))
                  (after_checks env ps (take k xs) w))"
proof -
  have len: "length (fst (validate_loop env ps (take k xs) [] w)) = k"
    using validate_loop_lines [of env ps "take k xs" w] assms
    by (metis length_map length_take min.absorb2 less_imp_le)
  have xs: "xs = take k xs @ (xs ! k) # drop (Suc k) xs"
    using assms by (simp add: id_take_nth_drop)
  have "fst (validate_loop env ps xs [] w) ! k =
        fst (validate_loop env ps (take k xs @ (xs ! k) # drop (Suc k) xs) [] w) ! k"
    using xs by simp
  also have "\<dots> = fst (validate_loop env ps ((xs ! k) # drop (Suc k) xs) []
                          (snd (validate_loop env ps (take k xs) [] w))) ! 0"
    by (simp add: validate_loop_append nth_append len)
  finally show ?thesis
    by (simp add: validate_loop_Cons validate_loop_world del: validate_loop.simps(2))
qed

text \<open>
  Claim C9. \<open>validateCart\<close> makes one availability check per line, in the order of the
  lines, each in the world left by the checks before it (so the call makes as many
  requests as there are lines). There is a list of results, one per line and in the
  order of the lines, carrying the line's product id, title and quantity and the verdict
  of its check, such that: \<open>availableItems\<close> are the results with verdict \<open>true\<close> and
  \<open>unavailableItems\<close> those with verdict \<open>false\<close>, the two together being exactly the
  results; \<open>isValid\<close> is true iff every verdict is \<open>true\<close>; \<open>totalItems\<close> is the number
  of lines. The aggregator, so its list of lines, is unchanged.
\<close>

theorem C9_validateCart:
  "v_totalItems (fst (validateCart env this w)) = length (items this)
   \<and> fst (snd (validateCart env this w)) = this
   \<and> snd (snd (validateCart env this w)) = after_checks env (productService this) (items this) w
   \<and> net (snd (snd (validateCart env this w))) = net w + length (items this)
   \<and> (\<exists>results.
         map r_productId results = map i_productId (items this)
       \<and> map r_title results = map i_title (items this)
       \<and> map r_quantity results = map i_quantity (items this)
       \<and> (\<forall>k < length (items this).
             r_isAvailable (results ! k) =
               fst (isProductAvailable env (productService this) (i_productId (items this ! k))
                      (after_checks env (productService this) (take k (items this)) w)))
       \<and> v_availableItems (fst (validateCart env this w)) = filter r_isAvailable results
       \<and> v_unavailableItems (fst (validateCart env this w))
           = filter (\<lambda>r. \<not> r_isAvailable r) results
       \<and> mset (v_availableItems (fst (validateCart env this w)))
           + mset (v_unavailableItems (fst (validateCart env this w))) = mset results
       \<and> v_isValid (fst (validateCart env this w)) = list_all r_isAvailable results)"
proof -
  let ?results = "fst (validate_loop env (productService this) (items this) [] w)"
  have v: "validateCart env this w =
      (\<lparr>v_isValid = (length (filter (\<lambda>r. \<not> r_isAvailable r) ?results) = 0),
        v_availableItems = filter r_isAvailable ?results,
        v_unavailableItems = filter (\<lambda>r. \<not> r_isAvailable r) ?results,
        v_totalItems = length ?results\<rparr>,
       this, after_checks env (productService this) (items this) w)"
    by (simp add: validateCart_def Let_def validate_loop_world [symmetric] split: prod.split)
  have len: "length ?results = length (items this)"
    using validate_loop_lines [of env "productService this" "items this" w]
    by (metis length_map)
  have valid: "(length (filter (\<lambda>r. \<not> r_isAvailable r) ?results) = 0)
               = list_all r_isAvailable ?results"
    by (simp add: list_all_iff filter_empty_conv)
  have part: "mset (filter r_isAvailable ?results)
              + mset (filter (\<lambda>r. \<not> r_isAvailable r) ?results) = mset ?results"
    by simp
  have verdicts: "\<forall>k < length (items this).
             r_isAvailable (?results ! k) =
               fst (isProductAvailable env (productService this) (i_productId (items this ! k))
                      (after_checks env (productService this) (take k (items this)) w))"
    by (simp add: validate_loop_verdict)
  show ?thesis
    apply (simp only: v fst_conv snd_conv validation.simps len valid after_checks_net)
    apply (intro conjI refl)
    apply (rule exI [of _ ?results])
    using validate_loop_lines [of env "productService this" "items this" w] part verdicts
    apply simp
    done
qed

text \<open>The cart of one phone and two shirts, validated when every draw is 0.1: the phone
  is not available, the shirts are.\<close>

theorem C9_validateCart_witness:
  "fst (validateCart (shop 0.1) (fst (run (shop 0.5) [AddProduct 1 1, AddProduct 2 2] w0)) w0) =
     \<lparr>v_isValid = False,
      v_availableItems =
        [\<lparr>r_productId = 2, r_title = ''Camiseta basica'', r_quantity = 2, r_isAvailable = True\<rparr>],
      v_unavailableItems =
        [\<lparr>r_productId = 1, r_title = ''iPhone 15 Pro'', r_quantity = 1, r_isAvailable = False\<rparr>],
      v_totalItems = 2\<rparr>
   \<and> fst (snd (validateCart (shop 0.1)
        (fst (run (shop 0.5) [AddProduct 1 1, AddProduct 2 2] w0)) w0))
       = fst (run (shop 0.5) [AddProduct 1 1, AddProduct 2 2] w0)
   \<and> net (snd (snd (validateCart (shop 0.1)
        (fst (run (shop 0.5) [AddProduct 1 1, AddProduct 2 2] w0)) w0))) = 2"
proof -
  let ?cart = "fst (run (shop 0.5) [AddProduct 1 1, AddProduct 2 2] w0)"
  have e: "fst (validateCart (shop 0.1) ?cart w0) =
     \<lparr>v_isValid = False,
      v_availableItems =
        [\<lparr>r_productId = 2, r_title = ''Camiseta basica'', r_quantity = 2, r_isAvailable = True\<rparr>],
      v_unavailableItems =
        [\<lparr>r_productId = 1, r_title = ''iPhone 15 Pro'', r_quantity = 1, r_isAvailable = False\<rparr>],
      v_totalItems = 2\<rparr>"
    unfolding run_phone_shirts
    by (simp add: validateCart_def isProductAvailable_def getProduct_def shop_def
        iphone_def camiseta_def w0_def Let_def)
  have l: "length (items ?cart) = 2" "net w0 = 0"
    unfolding run_phone_shirts by (simp_all add: w0_def)
  from C9_validateCart [of "shop 0.1" ?cart w0]
  have "fst (snd (validateCart (shop 0.1) ?cart w0)) = ?cart"
    and "net (snd (snd (validateCart (shop 0.1) ?cart w0))) = net w0 + length (items ?cart)"
    by blast+
  with e l show ?thesis by simp
qed

section \<open>The invariant of the cart lines\<close>

lemma set_update_first: "set (update_first P (\<lambda>_. y) xs) \<subseteq> insert y (set xs)"
  by (induction xs) auto

lemma find_SomeD: "List.find P xs = Some x \<Longrightarrow> x \<in> set xs \<and> P x"
  by (induction xs) (auto split: if_splits)

text \<open>One \<open>addProduct\<close> keeps the invariant, when the quantity is at least one and the
  upstream keeps its prices: a new line is sound by construction; an incremented line is
  sound because the price fetched now is the price stored when the line was made.\<close>

lemma addProduct_inv:
  assumes stable: "stable_prices env"
    and q: "quantity \<ge> 1"
    and inv: "cart_inv env this"
  shows "cart_inv env (fst (snd (addProduct env productId quantity this w)))
       \<and> productService (fst (snd (addProduct env productId quantity this w)))
           = productService this"
proof (cases "axios_get_product env (net w) (apiUrl (productService this)) productId")
  case (Inl cause)
  then show ?thesis using inv by (simp add: addProduct_def getProduct_failure)
next
  case (Inr d)
  let ?ps = "productService this"
  let ?w1 = "w\<lparr>net := Suc (net w)\<rparr>"
  obtain isAvailable w2 where av: "isProductAvailable env ?ps productId ?w1 = (isAvailable, w2)"
    by (cases "isProductAvailable env ?ps productId ?w1")
  show ?thesis
  proof (cases isAvailable)
    case False
    with Inr av inv show ?thesis by (simp add: addProduct_def getProduct_success)
  next
    case True
    show ?thesis
    proof (cases "List.find (\<lambda>item. i_productId item = productId) (items this)")
      case None
      let ?new = "\<lparr>i_productId = productId, i_title = d_title d, i_price = d_price d,
                    i_priceWithTax = calculateTax (d_price d), i_quantity = quantity,
                    i_subtotal = quantity * calculateTax (d_price d),
                    i_isExpensive = (d_price d > 100)\<rparr>"
      have r: "fst (snd (addProduct env productId quantity this w))
                 = this\<lparr>items := items this @ [?new]\<rparr>"
        using Inr av True None by (simp add: addProduct_def getProduct_success Let_def)
      have "line_ok ?new" using q by (simp add: line_ok_def)
      moreover have "priced_by env (apiUrl ?ps) ?new"
        using stable Inr unfolding priced_by_def stable_prices_def
        by (metis cart_item.select_convs(1,4))
      ultimately show ?thesis using inv unfolding r cart_inv_def by auto
    next
      case (Some existingItem)
      let ?e2 = "existingItem\<lparr>i_quantity := i_quantity existingItem + quantity,
                   i_subtotal := (i_quantity existingItem + quantity) * calculateTax (d_price d)\<rparr>"
      have r: "fst (snd (addProduct env productId quantity this w))
                 = this\<lparr>items := update_first (\<lambda>item. i_productId item = productId)
                                     (\<lambda>_. ?e2) (items this)\<rparr>"
        using Inr av True Some by (simp add: addProduct_def getProduct_success Let_def)
      from find_SomeD [OF Some] have mem: "existingItem \<in> set (items this)"
        and id: "i_productId existingItem = productId" by simp_all
      from inv mem have ok: "line_ok existingItem"
        and pr: "priced_by env (apiUrl ?ps) existingItem"
        by (simp_all add: cart_inv_def)
      from pr Inr id have price: "i_priceWithTax existingItem = calculateTax (d_price d)"
        unfolding priced_by_def by blast
      have "line_ok ?e2" using ok q price by (simp add: line_ok_def)
      moreover have "priced_by env (apiUrl ?ps) ?e2"
        using pr by (simp add: priced_by_def)
      ultimately show ?thesis
        using inv set_update_first [of "\<lambda>item. i_productId item = productId" ?e2 "items this"]
        unfolding r cart_inv_def by auto
    qed
  qed
qed

lemma step_inv:
  assumes "stable_prices env" and "positive_quantity operation" and "cart_inv env (fst s)"
  shows "cart_inv env (fst (step env s operation))
       \<and> productService (fst (step env s operation)) = productService (fst s)"
proof (cases s)
  case (Pair this w)
  show ?thesis
  proof (cases operation)
    case (AddProduct productId quantity)
    with assms Pair show ?thesis using addProduct_inv [of env quantity this productId w] by simp
  next
    case GetCartSummary
    with assms Pair show ?thesis by (simp add: getCartSummary_def Let_def)
  next
    case ValidateCart
    with assms Pair show ?thesis by (simp add: validateCart_def Let_def split: prod.split)
  next
    case ClearCart
    with assms Pair show ?thesis by (simp add: clearCart_def cart_inv_def)
  next
    case GetItems
    with assms Pair show ?thesis by (simp add: getItems_def)
  qed
qed

lemma foldl_step_inv:
  assumes "stable_prices env" and "list_all positive_quantity ops" and "cart_inv env (fst s)"
  shows "cart_inv env (fst (foldl (step env) s ops))"
  using assms(2,3)
proof (induction ops arbitrary: s)
  case Nil
  then show ?case by simp
next
  case (Cons operation ops)
  then show ?case using step_inv [OF assms(1), of operation s] by simp
qed

lemma run_repriced:
  "run (repriced 2 10 20) [AddProduct 1 1, AddProduct 1 2] w0 =
     (\<lparr>productService = \<lparr>apiUrl = ''https://fakestoreapi.com''\<rparr>,
       items = [\<lparr>i_productId = 1, i_title = ''Producto Demo'', i_price = 10,
                 i_priceWithTax = 11, i_quantity = 3, i_subtotal = 66,
                 i_isExpensive = False\<rparr>]\<rparr>,
      \<lparr>net = 4, rnd = 0\<rparr>)"
  by (simp add: service_defs repriced_def w0_def)

lemma run_zero:
  "run (shop 0.1) [AddProduct 2 0] w0 =
     (\<lparr>productService = \<lparr>apiUrl = ''https://fakestoreapi.com''\<rparr>,
       items = [\<lparr>i_productId = 2, i_title = ''Camiseta basica'', i_price = 25,
                 i_priceWithTax = 27.5, i_quantity = 0, i_subtotal = 0,
                 i_isExpensive = False\<rparr>]\<rparr>,
      \<lparr>net = 2, rnd = 0\<rparr>)"
  by (simp add: service_defs shop_def camiseta_def w0_def)

text \<open>
  Claim C3, as stated, fails twice. \<open>addProduct(2, 0)\<close> on a new aggregator succeeds and
  leaves a line of quantity 0: nothing in \<open>addProduct\<close> looks at the quantity. And when
  the upstream changes the price of product 1 from 10 to 20 between two additions of 1 and
  of 2 units, the line keeps the unit price 11 of the first fetch while its subtotal is
  computed with the 22 of the second: 66, not 3 * 11.
\<close>

theorem C3_invariant_counterexample:
  "map i_quantity (items (fst (run (shop 0.1) [AddProduct 2 0] w0))) = [0]
   \<and> \<not> list_all line_ok (items (fst (run (shop 0.1) [AddProduct 2 0] w0)))
   \<and> map i_quantity (items (fst (run (repriced 2 10 20) [AddProduct 1 1, AddProduct 1 2] w0)))
       = [3]
   \<and> map i_priceWithTax
         (items (fst (run (repriced 2 10 20) [AddProduct 1 1, AddProduct 1 2] w0))) = [11]
   \<and> map i_subtotal (items (fst (run (repriced 2 10 20) [AddProduct 1 1, AddProduct 1 2] w0)))
       = [66]
   \<and> \<not> list_all line_ok
         (items (fst (run (repriced 2 10 20) [AddProduct 1 1, AddProduct 1 2] w0)))"
  unfolding run_zero run_repriced by (simp add: line_ok_def)

text \<open>
  Claim C3, amended. Take a new aggregator and any sequence of its operations
  (\<open>addProduct\<close>, \<open>getCartSummary\<close>, \<open>validateCart\<close>, \<open>clearCart\<close>, \<open>getItems\<close>) in which
  every \<open>addProduct\<close> is called with a quantity of at least 1, against an upstream whose
  answers for one product always carry the same price. Then in the state reached every
  line has a quantity of at least 1 and a subtotal equal to its quantity times its stored
  unit price with tax.
\<close>

theorem C3_invariant_amended:
  assumes "stable_prices env" and "list_all positive_quantity ops"
  shows "list_all line_ok (items (fst (run env ops w)))"
proof -
  have "cart_inv env (fst (CartService_new, w))"
    by (simp add: cart_inv_def CartService_new_def)
  from foldl_step_inv [OF assms this] show ?thesis
    by (simp add: run_def cart_inv_def list_all_iff)
qed

text \<open>A session against the fixed catalogue that adds, increments, reads, validates and
  adds again (five phones and three shirts in the end), and one that clears the cart in
  between.\<close>

lemma run_session:
  "items (fst (run (shop 0.9)
        [AddProduct 1 1, AddProduct 2 2, GetCartSummary, AddProduct 2 1, ValidateCart,
         GetItems, AddProduct 1 4] w0)) =
     [\<lparr>i_productId = 1, i_title = ''iPhone 15 Pro'', i_price = 999,
       i_priceWithTax = 1148.85, i_quantity = 5, i_subtotal = 5744.25, i_isExpensive = True\<rparr>,
      \<lparr>i_productId = 2, i_title = ''Camiseta basica'', i_price = 25,
       i_priceWithTax = 27.5, i_quantity = 3, i_subtotal = 82.5, i_isExpensive = False\<rparr>]"
  by (simp add: service_defs shop_def iphone_def camiseta_def w0_def)

theorem C3_invariant_amended_witness:
  "stable_prices (shop 0.9)
   \<and> list_all positive_quantity
        [AddProduct 1 1, AddProduct 2 2, GetCartSummary, AddProduct 2 1, ValidateCart,
         GetItems, AddProduct 1 4]
   \<and> list_all line_ok (items (fst (run (shop 0.9)
        [AddProduct 1 1, AddProduct 2 2, GetCartSummary, AddProduct 2 1, ValidateCart,
         GetItems, AddProduct 1 4] w0)))
   \<and> map i_quantity (items (fst (run (shop 0.9)
        [AddProduct 1 1, AddProduct 2 2, GetCartSummary, AddProduct 2 1, ValidateCart,
         GetItems, AddProduct 1 4] w0))) = [5, 3]
   \<and> list_all positive_quantity [AddProduct 2 3, ClearCart, AddProduct 1 2]
   \<and> list_all line_ok (items (fst (run (shop 0.9)
        [AddProduct 2 3, ClearCart, AddProduct 1 2] w0)))"
proof -
  have s: "stable_prices (shop 0.9)"
    by (auto simp: stable_prices_def shop_def split: if_splits)
  have p: "list_all positive_quantity
        [AddProduct 1 1, AddProduct 2 2, GetCartSummary, AddProduct 2 1, ValidateCart,
         GetItems, AddProduct 1 4]"
    "list_all positive_quantity [AddProduct 2 3, ClearCart, AddProduct 1 2]"
    by simp_all
  have n: "map i_quantity (items (fst (run (shop 0.9)
        [AddProduct 1 1, AddProduct 2 2, GetCartSummary, AddProduct 2 1, ValidateCart,
         GetItems, AddProduct 1 4] w0))) = [5, 3]"
    unfolding run_session by simp
  from s p n C3_invariant_amended [OF s p(1), of w0] C3_invariant_amended [OF s p(2), of w0]
  show ?thesis by blast
qed

section \<open>Adding the same product twice\<close>

lemma filter_no_match:
  "List.find P xs = None \<Longrightarrow> filter P xs = []"
  by (induction xs) (auto split: if_splits)

lemma find_append_new:
  "List.find P xs = None \<Longrightarrow> P y \<Longrightarrow> List.find P (xs @ [y]) = Some y"
  by (induction xs) (auto split: if_splits)

lemma update_first_append_new:
  "List.find P xs = None \<Longrightarrow> P y \<Longrightarrow> update_first P f (xs @ [y]) = xs @ [f y]"
  by (induction xs) (auto split: if_splits)

text \<open>
  What two successive additions of a product that has no line yet do: one line for the
  product, of quantity \<open>q1 + q2\<close>, whose stored unit price is the taxed price of the
  first fetch and whose subtotal is \<open>q1 + q2\<close> times the taxed price of the fetch of the
  second addition.
\<close>

lemma addProduct_twice:
  assumes none: "List.find (\<lambda>item. i_productId item = productId) (items this) = None"
    and a1: "addProduct env productId q1 this w = (Inr line1, this1, w1)"
    and a2: "addProduct env productId q2 this1 w1 = (Inr line2, this2, w2)"
  shows "\<exists>d1 d2.
           axios_get_product env (net w) (apiUrl (productService this)) productId = Inr d1
         \<and> axios_get_product env (net w1) (apiUrl (productService this)) productId = Inr d2
         \<and> items this2 = items this @ [line2]
         \<and> filter (\<lambda>item. i_productId item = productId) (items this2) = [line2]
         \<and> i_quantity line2 = q1 + q2
         \<and> i_priceWithTax line2 = calculateTax (d_price d1)
         \<and> i_subtotal line2 = (q1 + q2) * calculateTax (d_price d2)"
proof -
  let ?P = "\<lambda>item. i_productId item = productId"
  let ?ps = "productService this"
  obtain d1 where d1: "axios_get_product env (net w) (apiUrl ?ps) productId = Inr d1"
    using a1 by (cases "axios_get_product env (net w) (apiUrl ?ps) productId")
      (auto simp: addProduct_def getProduct_failure)
  let ?new = "\<lparr>i_productId = productId, i_title = d_title d1, i_price = d_price d1,
                i_priceWithTax = calculateTax (d_price d1), i_quantity = q1,
                i_subtotal = q1 * calculateTax (d_price d1),
                i_isExpensive = (d_price d1 > 100)\<rparr>"
  from a1 d1 none have this1: "this1 = this\<lparr>items := items this @ [?new]\<rparr>"
    by (auto simp: addProduct_def getProduct_success Let_def split: prod.splits if_splits)
  then have ps1: "productService this1 = ?ps" and items1: "items this1 = items this @ [?new]"
    by simp_all
  obtain d2 where d2: "axios_get_product env (net w1) (apiUrl ?ps) productId = Inr d2"
    using a2 ps1 by (cases "axios_get_product env (net w1) (apiUrl ?ps) productId")
      (auto simp: addProduct_def getProduct_failure)
  have f: "List.find ?P (items this1) = Some ?new"
    unfolding items1 using none by (simp add: find_append_new)
  let ?e2 = "?new\<lparr>i_quantity := q1 + q2, i_subtotal := (q1 + q2) * calculateTax (d_price d2)\<rparr>"
  have u: "update_first ?P (\<lambda>_. ?e2) (items this1) = items this @ [?e2]"
    unfolding items1 using none by (simp add: update_first_append_new)
  from a2 d2 ps1 f u have r: "line2 = ?e2" "items this2 = items this @ [?e2]"
    by (auto simp: addProduct_def getProduct_success Let_def split: prod.splits if_splits)
  have "filter ?P (items this2) = [line2]"
    unfolding r using none by (simp add: filter_no_match)
  with d1 d2 r show ?thesis by simp
qed

text \<open>
  Claim C4 does not hold of the code. Against an upstream that sells product 1 at 10 for
  the two requests of the first addition and at 20 afterwards, \<open>addProduct(1, 1)\<close> and
  then \<open>addProduct(1, 2)\<close> both succeed; the cart holds one line, of quantity 3 and
  stored unit price 11, and its subtotal is 66 instead of 3 * 11 = 33. The branch that
  increments a line multiplies by the price just fetched and leaves the stored unit price
  as it was; the branch that makes a line stores the price it multiplies by.
\<close>

theorem C4_same_product_twice_drift:
  "fst (addProduct (repriced 2 10 20) 1 1 CartService_new w0) =
     Inr \<lparr>i_productId = 1, i_title = ''Producto Demo'', i_price = 10, i_priceWithTax = 11,
          i_quantity = 1, i_subtotal = 11, i_isExpensive = False\<rparr>
   \<and> fst (addProduct (repriced 2 10 20) 1 2
            (fst (snd (addProduct (repriced 2 10 20) 1 1 CartService_new w0)))
            (snd (snd (addProduct (repriced 2 10 20) 1 1 CartService_new w0)))) =
     Inr \<lparr>i_productId = 1, i_title = ''Producto Demo'', i_price = 10, i_priceWithTax = 11,
          i_quantity = 3, i_subtotal = 66, i_isExpensive = False\<rparr>
   \<and> items (fst (snd (addProduct (repriced 2 10 20) 1 2
            (fst (snd (addProduct (repriced 2 10 20) 1 1 CartService_new w0)))
            (snd (snd (addProduct (repriced 2 10 20) 1 1 CartService_new w0)))))) =
     [\<lparr>i_productId = 1, i_title = ''Producto Demo'', i_price = 10, i_priceWithTax = 11,
       i_quantity = 3, i_subtotal = 66, i_isExpensive = False\<rparr>]
   \<and> (66 :: number) \<noteq> (1 + 2) * 11"
  by (simp add: service_defs repriced_def w0_def)

end
